theory Spec2Isabelle
  imports Main "HOL-Library.AList"
begin

section \<open>Single gene deletion runner (knockout.py)\<close>

text \<open>
  The program is a thin layer around external collaborators: the operating system
  (\<^verbatim>\<open>os.path.exists\<close>, the shell, file reading and writing), the model readers of
  the modelling library, its single gene deletion routine and the table writer.
  Each external call is a field of an environment record that gives the answer of the
  call; each observable effect of the program is an event of a trace, in program order.
  Every function of the source returns the trace it produced together with either the
  exception it raised (\<open>Inl\<close>) or its value (\<open>Inr\<close>).

  A Python string is given by the list of the bytes of its UTF-8 text. The characters
  the program itself looks for (\<^verbatim>\<open>/\<close>, \<^verbatim>\<open>.\<close>, line feed) are ASCII and occur in
  such a list exactly where they occur in the string, so splitting, stripping and
  comparing are the same on both.
\<close>

subsection \<open>Exceptions, events, external data\<close>

text \<open>
  The Python exception classes that occur. \<^verbatim>\<open>IOError\<close> is \<^verbatim>\<open>OSError\<close>, and
  \<^verbatim>\<open>FileNotFoundError\<close> is one of its subclasses: \<open>is_IOError\<close> is the test that
  \<^verbatim>\<open>except IOError\<close> performs. \<open>ExternalError\<close> stands for every other exception
  an external routine may raise (a solver failure, a parse error).
\<close>

datatype error =
    FileNotFoundError string
  | IOError string
  | KeyError string
  | IndexError
  | AttributeError
  | CalledProcessError int string
  | ExternalError string

fun is_KeyError :: "error \<Rightarrow> bool" where
  "is_KeyError (KeyError k) = True"
| "is_KeyError e = False"

fun is_IOError :: "error \<Rightarrow> bool" where
  "is_IOError (IOError m) = True"
| "is_IOError (FileNotFoundError m) = True"
| "is_IOError e = False"

text \<open>The three readers imported from \<^verbatim>\<open>cobra.io\<close>.\<close>

datatype loader = read_sbml_model | load_json_model | load_matlab_model

text \<open>
  What the program reads of a loaded model: its gene collection, each gene with an
  \<^verbatim>\<open>id\<close> and a \<^verbatim>\<open>name\<close>.
\<close>

record gene =
  gene_id :: string
  gene_name :: string

record model =
  genes :: "gene list"

text \<open>
  One row of the table returned by \<^verbatim>\<open>single_gene_deletion\<close>, with the columns
  \<^verbatim>\<open>ids\<close>, \<^verbatim>\<open>growth\<close>, \<^verbatim>\<open>status\<close> in this order (the order of the output sample in
  the docstring of the class). The \<^verbatim>\<open>ids\<close> cell is a set of gene identifiers; it is
  given by its elements in iteration order, which is what \<^verbatim>\<open>list(x)\<close> produces.
  The growth value is a float, kept abstract (\<open>'g\<close>).
\<close>

record 'g row =
  ids :: "string list"
  growth :: 'g
  status :: string

datatype event =
    LogInfo string
  | ParserCall loader string
  | ShellCall string
  | FileWrite string string

text \<open>
  \<open>LogInfo m\<close>: a diagnostic line with the message \<open>m\<close> was logged.
  \<open>ParserCall f file\<close>: reader \<open>f\<close> was invoked on \<open>file\<close>.
  \<open>ShellCall cmd\<close>: \<open>cmd\<close> was handed to the shell.
  \<open>FileWrite path text\<close>: \<open>path\<close> was opened for writing (truncating it) and
  \<open>text\<close> written.
\<close>

record ('v, 'g) env =
  path_exists :: "string \<Rightarrow> bool"
  str_lower :: "string \<Rightarrow> string"
  parser :: "loader \<Rightarrow> string \<Rightarrow> (string \<times> 'v) list \<Rightarrow> error + model"
  shell :: "string \<Rightarrow> int"
  read_text :: "string \<Rightarrow> error + string"
  single_gene_deletion :: "model option \<Rightarrow> string list option \<Rightarrow> string \<Rightarrow> error + 'g row list"
  counter_repr :: "string list \<Rightarrow> string"
  float_repr :: "'g \<Rightarrow> string"
  csv_quote :: "string \<Rightarrow> string"
  linesep :: string
  file_writable :: "string \<Rightarrow> bool"

text \<open>
  \<open>path_exists\<close>: the answer of \<^verbatim>\<open>os.path.exists\<close> when it is asked.
  \<open>str_lower\<close>: the built-in \<^verbatim>\<open>str.lower\<close>, which lowercases the letters of every
  script, not only \<^verbatim>\<open>A\<close> to \<^verbatim>\<open>Z\<close>.
  \<open>parser f file kwargs\<close>: what reader \<open>f\<close> returns or raises.
  \<open>shell cmd\<close>: the exit status of \<open>cmd\<close> run by the shell.
  \<open>read_text path\<close>: the decoded content of the file, before newline translation, or
  the exception of \<^verbatim>\<open>open\<close>.
  \<open>single_gene_deletion model gene_list method\<close>: the result table or the exception.
  \<open>counter_repr\<close>: the text of \<^verbatim>\<open>Counter(statuses)\<close>.
  \<open>float_repr\<close>, \<open>csv_quote\<close>, \<open>linesep\<close>: how the table writer prints a float, how
  it quotes a cell that needs quoting (it leaves other cells as they are), and the
  line terminator of the platform.
  \<open>file_writable path\<close>: whether opening \<open>path\<close> for writing succeeds.
\<close>

type_synonym 'a io = "event list \<times> (error + 'a)"

definition return_io :: "'a \<Rightarrow> 'a io" where
  "return_io x = ([], Inr x)"

definition raise_io :: "error \<Rightarrow> 'a io" where
  "raise_io e = ([], Inl e)"

definition emit :: "event \<Rightarrow> unit io" where
  "emit ev = ([ev], Inr ())"

text \<open>
  Modelled from the spec: the logger of the decorator \<^verbatim>\<open>add_log\<close>, whose module is not
  among the sources. The decorator gives the decorated function an attribute
  \<^verbatim>\<open>logger\<close> and otherwise leaves its result and its exceptions as they are;
  \<^verbatim>\<open>logger.info(m)\<close> emits one diagnostic line carrying \<open>m\<close>.
\<close>

definition logger_info :: "string \<Rightarrow> unit io" where
  "logger_info m = emit (LogInfo m)"

text \<open>Sequencing: an exception ends the run, the events so far stay.\<close>

definition bind_io :: "'a io \<Rightarrow> ('a \<Rightarrow> 'b io) \<Rightarrow> 'b io" where
  "bind_io m f =
     (case m of
        (tr, Inl e) \<Rightarrow> (tr, Inl e)
      | (tr, Inr x) \<Rightarrow> (case f x of (tr', r) \<Rightarrow> (tr @ tr', r)))"

text \<open>The file store after the events of a trace.\<close>

fun files_after :: "event list \<Rightarrow> (string \<rightharpoonup> string) \<Rightarrow> (string \<rightharpoonup> string)" where
  "files_after [] fs = fs"
| "files_after (FileWrite p t # tr) fs = files_after tr (fs(p \<mapsto> t))"
| "files_after (ev # tr) fs = files_after tr fs"

fun parser_calls :: "event list \<Rightarrow> (loader \<times> string) list" where
  "parser_calls [] = []"
| "parser_calls (ParserCall f file # tr) = (f, file) # parser_calls tr"
| "parser_calls (ev # tr) = parser_calls tr"


fun file_writes :: "event list \<Rightarrow> (string \<times> string) list" where
  "file_writes [] = []"
| "file_writes (FileWrite p t # tr) = (p, t) # file_writes tr"
| "file_writes (ev # tr) = file_writes tr"

subsection \<open>String operations of Python\<close>

text \<open>
  \<^verbatim>\<open>s.split(sep)\<close> for a one-character separator: the pieces between the
  occurrences of \<open>sep\<close>, never an empty list.
\<close>

fun split_str :: "char \<Rightarrow> string \<Rightarrow> string list" where
  "split_str sep [] = [[]]"
| "split_str sep (c # cs) =
     (if c = sep then [] # split_str sep cs
      else (case split_str sep cs of
              [] \<Rightarrow> [[c]]
            | p # ps \<Rightarrow> (c # p) # ps))"

text \<open>
  What \<^verbatim>\<open>s.lower()\<close> does to ASCII text: the \<open>str_lower\<close> of the example
  environments, whose paths are ASCII.
\<close>

definition ascii_lower_char :: "char \<Rightarrow> char" where
  "ascii_lower_char c =
     (case map_of (zip ''ABCDEFGHIJKLMNOPQRSTUVWXYZ'' ''abcdefghijklmnopqrstuvwxyz'') c of
        None \<Rightarrow> c
      | Some d \<Rightarrow> d)"

definition ascii_lower :: "string \<Rightarrow> string" where
  "ascii_lower s = map ascii_lower_char s"

text \<open>\<^verbatim>\<open>s.strip(chars)\<close>: leading and trailing characters of \<open>chars\<close> removed.\<close>

definition strip :: "string \<Rightarrow> string \<Rightarrow> string" where
  "strip chars s =
     rev (dropWhile (\<lambda>c. c \<in> set chars) (rev (dropWhile (\<lambda>c. c \<in> set chars) s)))"

text \<open>The decimal text of a natural number, as an f-string prints \<^verbatim>\<open>len(...)\<close>.\<close>

definition digit_char :: "nat \<Rightarrow> char" where
  "digit_char d = ''0123456789'' ! d"

fun show_nat :: "nat \<Rightarrow> string" where
  "show_nat n =
     (if n < 10 then [digit_char n] else show_nat (n div 10) @ [digit_char (n mod 10)])"

declare show_nat.simps [simp del]

abbreviation LF :: char where "LF \<equiv> CHR 0x0A"
abbreviation CR :: char where "CR \<equiv> CHR 0x0D"
abbreviation TAB :: char where "TAB \<equiv> CHR 0x09"

text \<open>
  Reading a file opened by \<^verbatim>\<open>open(path)\<close>: text mode with the default
  \<^verbatim>\<open>newline=None\<close>, where the line ends \<^verbatim>\<open>\n\<close>, \<^verbatim>\<open>\r\<close> and \<^verbatim>\<open>\r\n\<close> of the
  file are each translated to \<^verbatim>\<open>\n\<close> before the text reaches the caller.
\<close>

fun universal_newlines :: "string \<Rightarrow> string" where
  "universal_newlines [] = []"
| "universal_newlines [c] = [if c = CR then LF else c]"
| "universal_newlines (c # d # cs) =
     (if c = CR \<and> d = LF then LF # universal_newlines cs
      else if c = CR then LF # universal_newlines (d # cs)
      else c # universal_newlines (d # cs))"

text \<open>\<^verbatim>\<open>fd.readlines()\<close>: the lines of the translated text, each with its \<^verbatim>\<open>\n\<close>.\<close>

fun keep_lines :: "string \<Rightarrow> string list" where
  "keep_lines [] = []"
| "keep_lines (c # cs) =
     (if c = LF then [LF] # keep_lines cs
      else (case keep_lines cs of
              [] \<Rightarrow> [[c]]
            | l # ls \<Rightarrow> (c # l) # ls))"

definition readlines :: "string \<Rightarrow> string list" where
  "readlines raw = keep_lines (universal_newlines raw)"

subsection \<open>load_model_from_file\<close>

definition funcs_dict :: "string \<rightharpoonup> loader" where
  "funcs_dict =
     map_of [(''xml'', read_sbml_model), (''json'', load_json_model), (''mat'', load_matlab_model)]"

text \<open>
  The \<^verbatim>\<open>try\<close> block holds the dictionary lookup and the reader's call together, so
  its two handlers see the exceptions of both. \<open>split_str\<close> never returns the empty
  list, so the index \<^verbatim>\<open>[-1]\<close> cannot raise.
\<close>

definition load_model_from_file ::
    "('v, 'g) env \<Rightarrow> string \<Rightarrow> (string \<times> 'v) list \<Rightarrow> model io" where
  "load_model_from_file env file kwargs =
     (if \<not> path_exists env file then raise_io (FileNotFoundError (''Not Found '' @ file))
      else
        let file_ext = last (split_str CHR ''.'' (str_lower env file)) in
        bind_io (logger_info file_ext) (\<lambda>_.
          case funcs_dict file_ext of
            None \<Rightarrow> raise_io (FileNotFoundError (''error '' @ file_ext))
          | Some f \<Rightarrow>
              bind_io (emit (ParserCall f file)) (\<lambda>_.
                case parser env f file kwargs of
                  Inr model_obj \<Rightarrow> return_io model_obj
                | Inl e \<Rightarrow>
                    if is_KeyError e then raise_io (FileNotFoundError (''error '' @ file_ext))
                    else if is_IOError e then raise_io (IOError (''error '' @ file))
                    else raise_io e)))"

subsection \<open>The class Knockout\<close>

text \<open>
  The attributes of an instance. \<open>gene_info\<close> is a Python dictionary: an association
  list with distinct keys in insertion order, updated by \<open>AList.update\<close> (a key that
  is present keeps its place and takes the new value, a new key goes to the end), so
  that \<^verbatim>\<open>len\<close> is the length of the list.
\<close>

record knockout =
  model_file :: string
  outdir :: string
  method' :: string
  gene_list :: "string list option"
  model_obj :: "model option"
  gene_info :: "(string \<times> string) list"
  out_name :: string
  out_res :: string

text \<open>
  \<^verbatim>\<open>subprocess.check_call(cmd, shell=True)\<close>: runs the command and raises
  \<^verbatim>\<open>CalledProcessError\<close> on a non-zero exit status.
\<close>

definition check_call :: "('v, 'g) env \<Rightarrow> string \<Rightarrow> unit io" where
  "check_call env cmd =
     bind_io (emit (ShellCall cmd)) (\<lambda>_.
       if shell env cmd = 0 then return_io ()
       else raise_io (CalledProcessError (shell env cmd) cmd))"

text \<open>
  The constructor \<^verbatim>\<open>Knockout.__init__\<close>. The caller gives the method explicitly
  (the default of the source is \<^verbatim>\<open>fba\<close>).
\<close>

definition Knockout :: "('v, 'g) env \<Rightarrow> string \<Rightarrow> string \<Rightarrow> string \<Rightarrow> knockout io" where
  "Knockout env model_file_arg outdir_arg method_arg =
     (let name = hd (split_str CHR ''.'' (last (split_str CHR ''/'' model_file_arg)));
          self = \<lparr> model_file = model_file_arg,
                   outdir = outdir_arg,
                   method' = method_arg,
                   gene_list = None,
                   model_obj = None,
                   gene_info = [],
                   out_name = name,
                   out_res = outdir_arg @ ''/'' @ name @ ''_knock_res.txt'' \<rparr>
      in if \<not> path_exists env outdir_arg
         then bind_io (check_call env (''mkdir -p '' @ outdir_arg)) (\<lambda>_. return_io self)
         else return_io self)"

definition set_gene_list :: "knockout \<Rightarrow> string list \<Rightarrow> knockout" where
  "set_gene_list self gl = self\<lparr>gene_list := Some gl\<rparr>"

text \<open>
  \<^verbatim>\<open>parse_gene_info_from_model\<close>: the loop over the genes updates the dictionary
  that the instance already has. Iterating over \<^verbatim>\<open>model_obj\<close> while it is still
  \<^verbatim>\<open>None\<close> raises \<^verbatim>\<open>AttributeError\<close>.
\<close>

definition parse_gene_info_from_model :: "knockout \<Rightarrow> knockout io" where
  "parse_gene_info_from_model self =
     (case model_obj self of
        None \<Rightarrow> raise_io AttributeError
      | Some m \<Rightarrow>
          let info = fold (\<lambda>r d. AList.update (gene_id r) (gene_name r) d) (genes m) (gene_info self)
          in bind_io (logger_info (''Total Genes: '' @ show_nat (length info))) (\<lambda>_.
               return_io (self\<lparr>gene_info := info\<rparr>)))"

definition load_data :: "('v, 'g) env \<Rightarrow> knockout \<Rightarrow> knockout io" where
  "load_data env self =
     bind_io (load_model_from_file env (model_file self) []) (\<lambda>m.
       parse_gene_info_from_model (self\<lparr>model_obj := Some m\<rparr>))"

text \<open>
  \<^verbatim>\<open>Series.apply(f)\<close>: \<open>f\<close> on every cell in row order; the first exception ends
  the whole application.
\<close>

fun apply_series :: "('a \<Rightarrow> error + 'b) \<Rightarrow> 'a list \<Rightarrow> error + 'b list" where
  "apply_series f [] = Inr []"
| "apply_series f (x # xs) =
     (case f x of
        Inl e \<Rightarrow> Inl e
      | Inr y \<Rightarrow> (case apply_series f xs of Inl e \<Rightarrow> Inl e | Inr ys \<Rightarrow> Inr (y # ys)))"

text \<open>\<^verbatim>\<open>list(x)[0]\<close> and \<^verbatim>\<open>self.gene_info[x]\<close>.\<close>

definition first_of :: "string list \<Rightarrow> error + string" where
  "first_of x = (case x of [] \<Rightarrow> Inl IndexError | g # _ \<Rightarrow> Inr g)"

definition getitem :: "(string \<times> string) list \<Rightarrow> string \<Rightarrow> error + string" where
  "getitem d k = (case map_of d k of None \<Rightarrow> Inl (KeyError k) | Some v \<Rightarrow> Inr v)"

definition lift_io :: "error + 'a \<Rightarrow> 'a io" where
  "lift_io r = ([], r)"

text \<open>
  \<^verbatim>\<open>to_csv(path, sep="\t", index=None)\<close> on the table with the columns
  \<^verbatim>\<open>ids\<close>, \<^verbatim>\<open>growth\<close>, \<^verbatim>\<open>status\<close>, \<^verbatim>\<open>name\<close>: a header line, then one line per row,
  the cells joined by the separator, no index column.
\<close>

fun join :: "string \<Rightarrow> string list \<Rightarrow> string" where
  "join sep [] = []"
| "join sep [x] = x"
| "join sep (x # y # ys) = x @ sep @ join sep (y # ys)"

definition csv_line :: "('v, 'g) env \<Rightarrow> string list \<Rightarrow> string" where
  "csv_line env cells = join [TAB] (map (csv_quote env) cells) @ linesep env"

definition csv_text :: "('v, 'g) env \<Rightarrow> (string \<times> 'g \<times> string \<times> string) list \<Rightarrow> string" where
  "csv_text env table =
     csv_line env [''ids'', ''growth'', ''status'', ''name''] @
     concat (map (\<lambda>(i, g, s, n). csv_line env [i, float_repr env g, s, n]) table)"

definition to_csv :: "('v, 'g) env \<Rightarrow> (string \<times> 'g \<times> string \<times> string) list \<Rightarrow> string \<Rightarrow> unit io" where
  "to_csv env table path =
     (if file_writable env path then emit (FileWrite path (csv_text env table))
      else raise_io (IOError path))"

definition run_knockout :: "('v, 'g) env \<Rightarrow> knockout \<Rightarrow> unit io" where
  "run_knockout env self =
     bind_io (lift_io (single_gene_deletion env (model_obj self) (gene_list self) (method' self)))
       (\<lambda>gene_status.
     bind_io (lift_io (apply_series first_of (map ids gene_status))) (\<lambda>ids_col.
     bind_io (lift_io (apply_series (getitem (gene_info self)) ids_col)) (\<lambda>name_col.
     bind_io (logger_info (counter_repr env (map status gene_status))) (\<lambda>_.
       to_csv env
         (zip ids_col (zip (map growth gene_status) (zip (map status gene_status) name_col)))
         (out_res self)))))"

subsection \<open>The command line\<close>

record args =
  arg_model_file :: string
  arg_outdir :: string
  arg_method :: string
  arg_gene_list :: "string option"

text \<open>The list comprehension over \<^verbatim>\<open>fd.readlines()\<close>.\<close>

definition gene_list_of_text :: "string \<Rightarrow> string list" where
  "gene_list_of_text raw = map (strip [LF]) (readlines raw)"

text \<open>\<^verbatim>\<open>main\<close> up to the call of \<^verbatim>\<open>load_data\<close>, and the whole of it.\<close>

definition main_setup :: "('v, 'g) env \<Rightarrow> args \<Rightarrow> knockout io" where
  "main_setup env a =
     bind_io (Knockout env (arg_model_file a) (arg_outdir a) (arg_method a)) (\<lambda>runner.
       case arg_gene_list a of
         None \<Rightarrow> return_io runner
       | Some path \<Rightarrow>
           bind_io (lift_io (read_text env path)) (\<lambda>raw.
             return_io (set_gene_list runner (gene_list_of_text raw))))"

definition main :: "('v, 'g) env \<Rightarrow> args \<Rightarrow> unit io" where
  "main env a =
     bind_io (main_setup env a) (\<lambda>runner.
     bind_io (load_data env runner) (\<lambda>runner.
       run_knockout env runner))"

subsection \<open>The wording of the specification\<close>

text \<open>
  The substring after the last occurrence of a character (the whole string when the
  character does not occur), and the string truncated at the first occurrence.
\<close>

definition spec_after_last :: "char \<Rightarrow> string \<Rightarrow> string" where
  "spec_after_last c s = rev (takeWhile (\<lambda>x. x \<noteq> c) (rev s))"

definition spec_upto_first :: "char \<Rightarrow> string \<Rightarrow> string" where
  "spec_upto_first c s = takeWhile (\<lambda>x. x \<noteq> c) s"

subsection \<open>Example inputs\<close>

definition example_model :: model where
  "example_model =
     \<lparr>genes = [\<lparr>gene_id = ''A'', gene_name = ''alpha''\<rparr>,
               \<lparr>gene_id = ''B'', gene_name = ''beta''\<rparr>]\<rparr>"

text \<open>
  An environment in which the model files exist, the SBML reader returns the example
  model and the other readers fail with a \<^verbatim>\<open>KeyError\<close> of their own, the deletion
  routine reports the two genes of the example, floats are given by their printed
  text and no cell needs quoting. Its paths are ASCII text, on which \<^verbatim>\<open>str.lower\<close>
  is \<open>ascii_lower\<close>.
\<close>

definition example_env :: "(unit, string) env" where
  "example_env =
     \<lparr> path_exists = (\<lambda>p. p \<in> set [''/data/my.model.v2.xml'', ''/data/Model.XML'',
                                      ''/data/model.json'', ''/data/notes.txt'', ''/out'']),
       str_lower = ascii_lower,
       parser = (\<lambda>f file kwargs.
          if f = read_sbml_model then Inr example_model else Inl (KeyError ''genes'')),
       shell = (\<lambda>cmd. 0),
       read_text = (\<lambda>path. Inl (FileNotFoundError path)),
       single_gene_deletion = (\<lambda>m gl meth.
          Inr [\<lparr>ids = [''A''], growth = ''0.5'', status = ''optimal''\<rparr>,
               \<lparr>ids = [''B''], growth = ''0.0'', status = ''infeasible''\<rparr>]),
       counter_repr = (\<lambda>statuses. ''Counter''),
       float_repr = (\<lambda>g. g),
       csv_quote = (\<lambda>cell. cell),
       linesep = [LF],
       file_writable = (\<lambda>path. True) \<rparr>"

definition example_self :: knockout where
  "example_self =
     \<lparr> model_file = ''/data/my.model.v2.xml'', outdir = ''/out'', method' = ''fba'',
       gene_list = None, model_obj = None, gene_info = [],
       out_name = ''my'', out_res = ''/out/my_knock_res.txt'' \<rparr>"

text \<open>The (id, name) pairs of the genes of a model, in the order of its gene collection.\<close>

definition entries :: "model \<Rightarrow> (string \<times> string) list" where
  "entries m = map (\<lambda>r. (gene_id r, gene_name r)) (genes m)"

definition three_gene_model :: model where
  "three_gene_model =
     \<lparr>genes = [\<lparr>gene_id = ''A'', gene_name = ''alpha''\<rparr>,
               \<lparr>gene_id = ''B'', gene_name = ''beta''\<rparr>,
               \<lparr>gene_id = ''C'', gene_name = ''gamma''\<rparr>]\<rparr>"

definition second_model :: model where
  "second_model =
     \<lparr>genes = [\<lparr>gene_id = ''B'', gene_name = ''bravo''\<rparr>,
               \<lparr>gene_id = ''C'', gene_name = ''gamma''\<rparr>]\<rparr>"

definition second_env :: "(unit, string) env" where
  "second_env = example_env\<lparr>parser := (\<lambda>f file kwargs. Inr second_model)\<rparr>"

definition after_first_load :: knockout where
  "after_first_load =
     example_self\<lparr>model_obj := Some example_model,
                  gene_info := [(''A'', ''alpha''), (''B'', ''beta'')]\<rparr>"

definition after_second_load :: knockout where
  "after_second_load =
     example_self\<lparr>model_obj := Some second_model,
                  gene_info := [(''A'', ''alpha''), (''B'', ''bravo''), (''C'', ''gamma'')]\<rparr>"

text \<open>
  The table of the specification: for every row of the deletion result, in its order,
  the id taken out of the one-element set, the growth, the status and the name from
  \<open>gene_info\<close>. Its cells as the writer prints them, and its text: the header line
  \<^verbatim>\<open>ids growth status name\<close> and one line per row, the cells separated by tabs.
\<close>

definition spec_table ::
    "(string \<times> string) list \<Rightarrow> 'g row list \<Rightarrow> (string \<times> 'g \<times> string \<times> string) list" where
  "spec_table info rows =
     map (\<lambda>r. (hd (ids r), growth r, status r, the (map_of info (hd (ids r))))) rows"

definition spec_cells ::
    "('v, 'g) env \<Rightarrow> (string \<times> 'g \<times> string \<times> string) list \<Rightarrow> string list" where
  "spec_cells env table =
     [''ids'', ''growth'', ''status'', ''name''] @
     concat (map (\<lambda>(i, g, s, n). [i, float_repr env g, s, n]) table)"

definition spec_table_text ::
    "('v, 'g) env \<Rightarrow> (string \<times> 'g \<times> string \<times> string) list \<Rightarrow> string" where
  "spec_table_text env table =
     ''ids'' @ [TAB] @ ''growth'' @ [TAB] @ ''status'' @ [TAB] @ ''name'' @ linesep env @
     concat (map (\<lambda>(i, g, s, n).
        i @ [TAB] @ float_repr env g @ [TAB] @ s @ [TAB] @ n @ linesep env) table)"

definition missing_env :: "(unit, string) env" where
  "missing_env = example_env\<lparr>single_gene_deletion := (\<lambda>m gl meth.
      Inr [\<lparr>ids = [''A''], growth = ''0.5'', status = ''optimal''\<rparr>,
           \<lparr>ids = [''Z''], growth = ''0.0'', status = ''optimal''\<rparr>])\<rparr>"

definition example_rows :: "string row list" where
  "example_rows =
     [\<lparr>ids = [''A''], growth = ''0.5'', status = ''optimal''\<rparr>,
      \<lparr>ids = [''B''], growth = ''0.0'', status = ''infeasible''\<rparr>]"

definition example_text :: string where
  "example_text =
     ''ids'' @ [TAB] @ ''growth'' @ [TAB] @ ''status'' @ [TAB] @ ''name'' @ [LF] @
     ''A'' @ [TAB] @ ''0.5'' @ [TAB] @ ''optimal'' @ [TAB] @ ''alpha'' @ [LF] @
     ''B'' @ [TAB] @ ''0.0'' @ [TAB] @ ''infeasible'' @ [TAB] @ ''beta'' @ [LF]"

subsection \<open>Reading the gene list: the wording of the specification and an example\<close>

text \<open>
  The specification's reading of the gene list: the lines of a text, separated by
  \<^verbatim>\<open>\n\<close> only, each without its \<^verbatim>\<open>\n\<close> and otherwise untouched (a final line end
  does not start another line).
\<close>

definition spec_gene_list :: "string \<Rightarrow> string list" where
  "spec_gene_list text =
     (let pieces = split_str LF text in if last pieces = [] then butlast pieces else pieces)"

definition crlf_text :: string where
  "crlf_text = [CHR ''A'', CR, LF, CHR '' '', CHR ''B'', CHR '' '', LF]"

definition gene_list_env :: "(unit, string) env" where
  "gene_list_env = example_env\<lparr>read_text := (\<lambda>path.
      if path = ''genes.txt'' then Inr crlf_text else Inl (FileNotFoundError path))\<rparr>"

definition gene_list_args :: args where
  "gene_list_args =
     \<lparr> arg_model_file = ''/data/my.model.v2.xml'', arg_outdir = ''/out'',
       arg_method = ''fba'', arg_gene_list = Some ''genes.txt'' \<rparr>"

subsection \<open>What the shell makes of the command\<close>






section \<open>Properties\<close>

subsection \<open>Auxiliary facts\<close>

lemmas io_defs = bind_io_def return_io_def raise_io_def emit_def lift_io_def logger_info_def

lemma split_str_not_Nil: "split_str c s \<noteq> []"
  by (induction s) (auto split: list.splits)

lemma split_str_no_sep: "c \<notin> set s \<Longrightarrow> split_str c s = [s]"
  by (induction s) auto

lemma split_str_append: "split_str c (xs @ c # ys) = split_str c xs @ split_str c ys"
  by (induction xs) (auto split: list.splits simp: split_str_not_Nil)

lemma takeWhile_no_sep: "c \<notin> set s \<Longrightarrow> takeWhile (\<lambda>x. x \<noteq> c) s = s"
  by (induction s) auto

lemma last_split_str: "last (split_str c s) = spec_after_last c s"
proof (cases "c \<in> set s")
  case False
  then show ?thesis
    by (simp add: split_str_no_sep spec_after_last_def takeWhile_no_sep)
next
  case True
  then obtain xs ys where s: "s = xs @ c # ys" and ys: "c \<notin> set ys"
    by (auto dest: split_list_last)
  from ys have "takeWhile (\<lambda>x. x \<noteq> c) (rev ys @ c # rev xs) = rev ys"
    by (subst takeWhile_append2) auto
  with ys show ?thesis
    by (simp add: s split_str_append split_str_no_sep spec_after_last_def)
qed

lemma hd_split_str: "hd (split_str c s) = spec_upto_first c s"
proof (cases "c \<in> set s")
  case False
  then show ?thesis
    by (simp add: split_str_no_sep spec_upto_first_def takeWhile_no_sep)
next
  case True
  then obtain xs ys where s: "s = xs @ c # ys" and xs: "c \<notin> set xs"
    by (auto dest: split_list_first)
  from xs have "takeWhile (\<lambda>x. x \<noteq> c) (xs @ c # ys) = xs"
    by (subst takeWhile_append2) auto
  with xs show ?thesis
    by (simp add: s split_str_append split_str_no_sep spec_upto_first_def)
qed

lemma Knockout_fields:
  assumes "snd (Knockout env mf od meth) = Inr self"
  shows "self = \<lparr> model_file = mf, outdir = od, method' = meth, gene_list = None,
                  model_obj = None, gene_info = [],
                  out_name = hd (split_str CHR ''.'' (last (split_str CHR ''/'' mf))),
                  out_res = od @ ''/'' @ hd (split_str CHR ''.'' (last (split_str CHR ''/'' mf)))
                              @ ''_knock_res.txt'' \<rparr>"
  using assms
  by (auto simp: Knockout_def check_call_def Let_def io_defs split: if_splits)

lemma map_of_fold_update:
  "map_of (fold (\<lambda>r d. AList.update (gene_id r) (gene_name r) d) gs d) =
     map_of d ++ map_of (rev (map (\<lambda>r. (gene_id r, gene_name r)) gs))"
  by (induction gs arbitrary: d) (simp_all add: update_conv')

lemma keys_fold_update:
  "fst ` set (fold (\<lambda>r d. AList.update (gene_id r) (gene_name r) d) gs d) =
     fst ` set d \<union> gene_id ` set gs"
  by (induction gs arbitrary: d) (auto simp: dom_update)

lemma distinct_fold_update:
  "distinct (map fst d) \<Longrightarrow>
     distinct (map fst (fold (\<lambda>r d. AList.update (gene_id r) (gene_name r) d) gs d))"
  by (induction gs arbitrary: d) (simp_all add: distinct_update)

lemma length_distinct_keys: "distinct (map fst d) \<Longrightarrow> length d = card (fst ` set d)"
  using distinct_card [of "map fst d"] by simp

lemma parse_gene_info_result:
  assumes "model_obj self = Some m"
  shows "parse_gene_info_from_model self =
           ([LogInfo (''Total Genes: '' @ show_nat (length
               (fold (\<lambda>r d. AList.update (gene_id r) (gene_name r) d) (genes m) (gene_info self))))],
            Inr (self\<lparr>gene_info :=
               fold (\<lambda>r d. AList.update (gene_id r) (gene_name r) d) (genes m) (gene_info self)\<rparr>))"
  using assms by (simp add: parse_gene_info_from_model_def Let_def io_defs)

lemma load_data_loaded:
  assumes "load_model_from_file env (model_file self) [] = (tr, Inr m)"
  shows "load_data env self =
           (tr @ [LogInfo (''Total Genes: '' @ show_nat (length
               (fold (\<lambda>r d. AList.update (gene_id r) (gene_name r) d) (genes m) (gene_info self))))],
            Inr (self\<lparr>model_obj := Some m, gene_info :=
               fold (\<lambda>r d. AList.update (gene_id r) (gene_name r) d) (genes m) (gene_info self)\<rparr>))"
  using parse_gene_info_result [of "self\<lparr>model_obj := Some m\<rparr>" m]
  by (simp add: load_data_def assms bind_io_def)

lemma apply_series_first_of:
  "\<forall>x \<in> set xs. x \<noteq> [] \<Longrightarrow> apply_series first_of xs = Inr (map hd xs)"
  by (induction xs) (auto simp: first_of_def split: list.splits)

lemma apply_series_getitem_present:
  "\<forall>k \<in> set ks. map_of d k \<noteq> None \<Longrightarrow>
     apply_series (getitem d) ks = Inr (map (\<lambda>k. the (map_of d k)) ks)"
  by (induction ks) (auto simp: getitem_def)

lemma apply_series_getitem_missing:
  "find (\<lambda>k. map_of d k = None) ks = Some k \<Longrightarrow>
     apply_series (getitem d) ks = Inl (KeyError k)"
  by (induction ks) (auto simp: getitem_def split: if_splits)

lemma zip_columns:
  "zip (map f rows) (zip (map growth rows) (zip (map status rows) (map h rows))) =
     map (\<lambda>r. (f r, growth r, status r, h r)) rows"
  by (induction rows) simp_all

lemma csv_text_plain:
  assumes "\<forall>cell \<in> set (spec_cells env table). csv_quote env cell = cell"
  shows "csv_text env table = spec_table_text env table"
proof -
  have "concat (map (\<lambda>(i, g, s, n). csv_line env [i, float_repr env g, s, n]) table) =
        concat (map (\<lambda>(i, g, s, n).
          i @ [TAB] @ float_repr env g @ [TAB] @ s @ [TAB] @ n @ linesep env) table)"
    if "\<forall>cell \<in> set (concat (map (\<lambda>(i, g, s, n). [i, float_repr env g, s, n]) table)).
          csv_quote env cell = cell"
    using that by (induction table) (auto simp: csv_line_def)
  with assms show ?thesis
    by (simp add: csv_text_def spec_table_text_def spec_cells_def csv_line_def)
qed

lemma universal_newlines_no_CR: "CR \<notin> set (universal_newlines s)"
  by (induction s rule: universal_newlines.induct) auto

lemma keep_lines_Nil_iff: "keep_lines t = [] \<longleftrightarrow> t = []"
  by (cases t) (auto split: list.splits)

lemma concat_keep_lines: "concat (keep_lines t) = t"
  by (induction t) (auto split: list.splits)

lemma keep_lines_shape:
  "l \<in> set (keep_lines t) \<Longrightarrow> l \<noteq> [] \<and> LF \<notin> set (butlast l)"
  by (induction t arbitrary: l) (auto split: list.splits if_splits)

lemma dropWhile_no_LF: "LF \<notin> set b \<Longrightarrow> dropWhile (\<lambda>c. c = LF) b = b"
  by (cases b) auto

lemma filter_no_LF: "LF \<notin> set b \<Longrightarrow> filter (\<lambda>c. c \<noteq> LF) b = b"
  by (induction b) auto

lemma strip_line:
  assumes "l \<noteq> []" and "LF \<notin> set (butlast l)"
  shows "strip [LF] l = filter (\<lambda>c. c \<noteq> LF) l"
proof -
  from assms(1) obtain b x where l: "l = b @ [x]"
    by (cases l rule: rev_cases) auto
  with assms(2) have b: "LF \<notin> set b"
    by simp
  then have rb: "LF \<notin> set (rev b)"
    by simp
  show ?thesis
  proof (cases b)
    case Nil
    then show ?thesis by (simp add: l strip_def)
  next
    case (Cons y ys)
    with b have "y \<noteq> LF" by auto
    then have front: "dropWhile (\<lambda>c. c = LF) (b @ [x]) = b @ [x]"
      by (simp add: Cons)
    show ?thesis
      using dropWhile_no_LF [OF rb] filter_no_LF [OF b]
      by (simp add: l strip_def front)
  qed
qed

lemma gene_list_filter:
  "gene_list_of_text raw = map (filter (\<lambda>c. c \<noteq> LF)) (keep_lines (universal_newlines raw))"
  by (simp add: gene_list_of_text_def readlines_def keep_lines_shape strip_line)

lemma filter_lines_spec:
  "map (filter (\<lambda>c. c \<noteq> LF)) (keep_lines t) = spec_gene_list t"
proof (induction t)
  case Nil
  then show ?case by (simp add: spec_gene_list_def)
next
  case (Cons c cs)
  note IH = Cons.IH
  obtain p ps where sp: "split_str LF cs = p # ps"
    using split_str_not_Nil [of LF cs] by (cases "split_str LF cs") auto
  show ?case
  proof (cases "c = LF")
    case True
    with IH sp show ?thesis
      by (auto simp: spec_gene_list_def Let_def split: if_splits)
  next
    case False
    show ?thesis
    proof (cases cs)
      case Nil
      with False show ?thesis by (simp add: spec_gene_list_def)
    next
      case (Cons d ds)
      then have "keep_lines cs \<noteq> []"
        unfolding keep_lines_Nil_iff by simp
      then obtain l ls where kl: "keep_lines cs = l # ls"
        by (cases "keep_lines cs") auto
      from IH kl sp False show ?thesis
        by (auto simp: spec_gene_list_def Let_def split: if_splits)
    qed
  qed
qed


lemma terminated_lines:
  "concat (map (\<lambda>l. filter (\<lambda>c. c \<noteq> LF) l @ [LF]) (keep_lines t)) =
     (if t = [] \<or> last t = LF then t else t @ [LF])"
proof (induction t)
  case Nil
  then show ?case by simp
next
  case (Cons c cs)
  then show ?case
    by (cases "keep_lines cs") (auto simp: keep_lines_Nil_iff split: if_splits)
qed

lemma gene_list_chars:
  assumes "g \<in> set (gene_list_of_text raw)"
  shows "CR \<notin> set g \<and> LF \<notin> set g"
proof -
  from assms obtain l where l: "l \<in> set (keep_lines (universal_newlines raw))"
    and g: "g = filter (\<lambda>c. c \<noteq> LF) l"
    by (auto simp: gene_list_filter)
  from l have "set l \<subseteq> set (concat (keep_lines (universal_newlines raw)))"
    by auto
  then have "CR \<notin> set l"
    using universal_newlines_no_CR [of raw] by (auto simp: concat_keep_lines)
  then show ?thesis
    by (simp add: g)
qed












subsection \<open>The output path\<close>

text \<open>
  Claim C2. For every model file, output directory and method the constructor returns
  an instance exactly when \<open>outdir\<close> exists or the \<^verbatim>\<open>mkdir\<close> command succeeds, and
  raises the error of the command otherwise. The instance holds the three arguments,
  no gene list, no model, an empty \<open>gene_info\<close>, as \<open>out_name\<close> the part of
  \<open>model_file\<close> after the last \<^verbatim>\<open>/\<close> truncated at the first \<^verbatim>\<open>.\<close>, and as output
  path \<open>outdir\<close>, \<^verbatim>\<open>/\<close>, \<open>out_name\<close> and \<^verbatim>\<open>_knock_res.txt\<close>. In the example of
  the specification \<^verbatim>\<open>/data/my.model.v2.xml\<close> and \<^verbatim>\<open>/out\<close> give
  \<^verbatim>\<open>/out/my_knock_res.txt\<close>.
\<close>

theorem out_path_derivation:
  "snd (Knockout env mf od meth) =
     (if path_exists env od \<or> shell env (''mkdir -p '' @ od) = 0
      then Inr \<lparr> model_file = mf, outdir = od, method' = meth, gene_list = None,
                 model_obj = None, gene_info = [],
                 out_name = spec_upto_first CHR ''.'' (spec_after_last CHR ''/'' mf),
                 out_res = od @ ''/'' @ spec_upto_first CHR ''.'' (spec_after_last CHR ''/'' mf)
                             @ ''_knock_res.txt'' \<rparr>
      else Inl (CalledProcessError (shell env (''mkdir -p '' @ od)) (''mkdir -p '' @ od)))"
  by (simp add: Knockout_def check_call_def Let_def io_defs hd_split_str last_split_str)

theorem out_path_derivation_witness:
  "snd (Knockout example_env ''/data/my.model.v2.xml'' ''/out'' ''fba'') = Inr example_self \<and>
   out_name example_self = ''my'' \<and>
   out_res example_self = ''/out/my_knock_res.txt''"
proof -
  have e: "path_exists example_env ''/out''"
    by (simp add: example_env_def)
  have n: "spec_upto_first CHR ''.'' (spec_after_last CHR ''/'' ''/data/my.model.v2.xml'') = ''my''"
    by (simp add: spec_upto_first_def spec_after_last_def)
  from out_path_derivation [of example_env "''/data/my.model.v2.xml''" "''/out''" "''fba''"]
  have "snd (Knockout example_env ''/data/my.model.v2.xml'' ''/out'' ''fba'') = Inr example_self"
    unfolding n using e by (simp add: example_self_def)
  then show ?thesis
    by (simp add: example_self_def)
qed

subsection \<open>Loading a model\<close>

text \<open>
  Claim C3. For an existing file whose lowercased text after the last \<^verbatim>\<open>.\<close> is
  \<^verbatim>\<open>xml\<close>, \<^verbatim>\<open>json\<close> or \<^verbatim>\<open>mat\<close>, the reader invoked is the matching one, it is
  invoked exactly once and no other reader is (the reader calls of the trace are that
  single call), and the model the reader returns is returned unchanged.
\<close>

theorem load_dispatch:
  assumes "path_exists env file"
    and "(spec_after_last CHR ''.'' (str_lower env file), f) \<in>
           set [(''xml'', read_sbml_model), (''json'', load_json_model),
                (''mat'', load_matlab_model)]"
  shows "parser_calls (fst (load_model_from_file env file kwargs)) = [(f, file)] \<and>
         (\<forall>m. parser env f file kwargs = Inr m \<longrightarrow>
                snd (load_model_from_file env file kwargs) = Inr m)"
proof -
  from assms(2) have "funcs_dict (last (split_str CHR ''.'' (str_lower env file))) = Some f"
    by (auto simp: last_split_str funcs_dict_def)
  with assms(1) show ?thesis
    by (auto simp: load_model_from_file_def Let_def io_defs split: sum.splits)
qed

theorem load_dispatch_witness:
  "path_exists example_env ''/data/Model.XML'' \<and>
   parser_calls (fst (load_model_from_file example_env ''/data/Model.XML'' [])) =
     [(read_sbml_model, ''/data/Model.XML'')] \<and>
   snd (load_model_from_file example_env ''/data/Model.XML'' []) = Inr example_model"
proof -
  have h1: "path_exists example_env ''/data/Model.XML''"
    by (simp add: example_env_def)
  have h2: "(spec_after_last CHR ''.'' (str_lower example_env ''/data/Model.XML''), read_sbml_model) \<in>
              set [(''xml'', read_sbml_model), (''json'', load_json_model),
                   (''mat'', load_matlab_model)]"
    by (simp add: spec_after_last_def example_env_def ascii_lower_def ascii_lower_char_def)
  have h3: "parser example_env read_sbml_model ''/data/Model.XML'' [] = Inr example_model"
    by (simp add: example_env_def)
  from load_dispatch [OF h1 h2, of "[]"] h1 h3 show ?thesis
    by blast
qed

text \<open>
  Claim C4. For an existing file whose lowercased text after the last \<^verbatim>\<open>.\<close> is none
  of the three extensions, the call raises \<^verbatim>\<open>FileNotFoundError\<close> with the message
  \<^verbatim>\<open>error\<close> followed by that extension, and no reader is invoked.
\<close>

theorem load_unsupported:
  assumes "path_exists env file"
    and "spec_after_last CHR ''.'' (str_lower env file) \<notin> {''xml'', ''json'', ''mat''}"
  shows "snd (load_model_from_file env file kwargs) =
           Inl (FileNotFoundError (''error '' @ spec_after_last CHR ''.'' (str_lower env file))) \<and>
         parser_calls (fst (load_model_from_file env file kwargs)) = []"
proof -
  from assms(2) have "funcs_dict (last (split_str CHR ''.'' (str_lower env file))) = None"
    by (auto simp: last_split_str funcs_dict_def)
  with assms(1) show ?thesis
    by (simp add: load_model_from_file_def Let_def io_defs last_split_str)
qed

theorem load_unsupported_witness:
  "path_exists example_env ''/data/notes.txt'' \<and>
   snd (load_model_from_file example_env ''/data/notes.txt'' []) =
     Inl (FileNotFoundError ''error txt'') \<and>
   parser_calls (fst (load_model_from_file example_env ''/data/notes.txt'' [])) = []"
proof -
  have h1: "path_exists example_env ''/data/notes.txt''"
    by (simp add: example_env_def)
  have h2: "spec_after_last CHR ''.'' (str_lower example_env ''/data/notes.txt'') = ''txt''"
    by (simp add: spec_after_last_def example_env_def ascii_lower_def ascii_lower_char_def)
  have h3: "spec_after_last CHR ''.'' (str_lower example_env ''/data/notes.txt'') \<notin> {''xml'', ''json'', ''mat''}"
    by (simp add: h2)
  from load_unsupported [OF h1 h3, of "[]"] h1 show ?thesis
    by (simp add: h2)
qed

text \<open>
  Claim C8. When the extension is a supported one and the reader itself raises a
  \<^verbatim>\<open>KeyError\<close>, the handler of the lookup catches it too: the call raises
  \<^verbatim>\<open>FileNotFoundError\<close> with the message \<^verbatim>\<open>error\<close> followed by the extension, after
  the reader has been invoked.
\<close>

theorem parser_KeyError_masked:
  assumes "path_exists env file"
    and "funcs_dict (spec_after_last CHR ''.'' (str_lower env file)) = Some f"
    and "parser env f file kwargs = Inl (KeyError k)"
  shows "load_model_from_file env file kwargs =
           ([LogInfo (spec_after_last CHR ''.'' (str_lower env file)), ParserCall f file],
            Inl (FileNotFoundError (''error '' @ spec_after_last CHR ''.'' (str_lower env file))))"
  using assms by (simp add: load_model_from_file_def Let_def io_defs last_split_str)

theorem parser_KeyError_masked_witness:
  "path_exists example_env ''/data/model.json'' \<and>
   funcs_dict (spec_after_last CHR ''.'' (str_lower example_env ''/data/model.json'')) = Some load_json_model \<and>
   parser example_env load_json_model ''/data/model.json'' [] = Inl (KeyError ''genes'') \<and>
   load_model_from_file example_env ''/data/model.json'' [] =
     ([LogInfo ''json'', ParserCall load_json_model ''/data/model.json''],
      Inl (FileNotFoundError ''error json''))"
proof -
  have h1: "path_exists example_env ''/data/model.json''"
    by (simp add: example_env_def)
  have h2: "spec_after_last CHR ''.'' (str_lower example_env ''/data/model.json'') = ''json''"
    by (simp add: spec_after_last_def example_env_def ascii_lower_def ascii_lower_char_def)
  have h3: "funcs_dict (spec_after_last CHR ''.'' (str_lower example_env ''/data/model.json'')) = Some load_json_model"
    by (simp add: h2 funcs_dict_def)
  have h4: "parser example_env load_json_model ''/data/model.json'' [] = Inl (KeyError ''genes'')"
    by (simp add: example_env_def)
  from parser_KeyError_masked [OF h1 h3 h4] h1 h3 h4 show ?thesis
    by (simp add: h2)
qed

subsection \<open>The gene table\<close>

text \<open>
  Claim C5, as amended. For every instance that holds a loaded model,
  \<open>parse_gene_info_from_model\<close> updates the dictionary the instance already has with the
  (id, name) pairs of that model: the keys afterwards are the keys before together with
  the gene ids of the model, every id of the model maps to the name of the last gene
  carrying it (the lookup in the reversed list of pairs finds the last pair first),
  the other keys keep their names, and the message logged is \<^verbatim>\<open>Total Genes:\<close>
  followed by the size of the dictionary, the number of those keys. When the dictionary
  was empty before, as on the instance the constructor returns, the keys are exactly
  the gene ids of the model. The witness is a model with three genes on such an
  instance, which logs \<^verbatim>\<open>Total Genes: 3\<close>.

  The claim as stated fails on an instance that has loaded a model before: with the
  genes \<^verbatim>\<open>A\<close>, \<^verbatim>\<open>B\<close> in the dictionary and a model with the genes \<^verbatim>\<open>B\<close>, \<^verbatim>\<open>C\<close> the
  keys are \<^verbatim>\<open>A\<close>, \<^verbatim>\<open>B\<close>, \<^verbatim>\<open>C\<close> and the log says three.
\<close>

theorem gene_info_after_parse:
  assumes "model_obj self = Some m"
    and "distinct (map fst (gene_info self))"
  shows "\<exists>info.
           parse_gene_info_from_model self =
             ([LogInfo (''Total Genes: '' @
                 show_nat (card (fst ` set (gene_info self) \<union> gene_id ` set (genes m))))],
              Inr (self\<lparr>gene_info := info\<rparr>)) \<and>
           distinct (map fst info) \<and>
           length info = card (fst ` set (gene_info self) \<union> gene_id ` set (genes m)) \<and>
           fst ` set info = fst ` set (gene_info self) \<union> gene_id ` set (genes m) \<and>
           map_of info = map_of (gene_info self) ++ map_of (rev (entries m)) \<and>
           (gene_info self = [] \<longrightarrow>
              fst ` set info = gene_id ` set (genes m) \<and>
              map_of info = map_of (rev (entries m)))"
proof -
  let ?info = "fold (\<lambda>r d. AList.update (gene_id r) (gene_name r) d) (genes m) (gene_info self)"
  have keys: "fst ` set ?info = fst ` set (gene_info self) \<union> gene_id ` set (genes m)"
    by (rule keys_fold_update)
  have dist: "distinct (map fst ?info)"
    using assms(2) by (rule distinct_fold_update)
  then have len: "length ?info = card (fst ` set (gene_info self) \<union> gene_id ` set (genes m))"
    by (simp add: length_distinct_keys keys)
  have look: "map_of ?info = map_of (gene_info self) ++ map_of (rev (entries m))"
    by (simp add: map_of_fold_update entries_def)
  have run: "parse_gene_info_from_model self =
      ([LogInfo (''Total Genes: '' @
          show_nat (card (fst ` set (gene_info self) \<union> gene_id ` set (genes m))))],
       Inr (self\<lparr>gene_info := ?info\<rparr>))"
    using parse_gene_info_result [OF assms(1)] by (simp only: len)
  have empty: "gene_info self = [] \<longrightarrow>
      fst ` set ?info = gene_id ` set (genes m) \<and> map_of ?info = map_of (rev (entries m))"
    by (auto simp: keys_fold_update map_of_fold_update entries_def)
  show ?thesis
  proof (intro exI conjI)
    show "parse_gene_info_from_model self =
        ([LogInfo (''Total Genes: '' @
            show_nat (card (fst ` set (gene_info self) \<union> gene_id ` set (genes m))))],
         Inr (self\<lparr>gene_info := ?info\<rparr>))"
      by (rule run)
    show "distinct (map fst ?info)"
      by (rule dist)
    show "length ?info = card (fst ` set (gene_info self) \<union> gene_id ` set (genes m))"
      by (rule len)
    show "fst ` set ?info = fst ` set (gene_info self) \<union> gene_id ` set (genes m)"
      by (rule keys)
    show "map_of ?info = map_of (gene_info self) ++ map_of (rev (entries m))"
      by (rule look)
    show "gene_info self = [] \<longrightarrow>
        fst ` set ?info = gene_id ` set (genes m) \<and> map_of ?info = map_of (rev (entries m))"
      by (rule empty)
  qed
qed

theorem gene_info_after_parse_witness:
  "model_obj (example_self\<lparr>model_obj := Some three_gene_model\<rparr>) = Some three_gene_model \<and>
   distinct (map fst (gene_info (example_self\<lparr>model_obj := Some three_gene_model\<rparr>))) \<and>
   gene_info (example_self\<lparr>model_obj := Some three_gene_model\<rparr>) = [] \<and>
   parse_gene_info_from_model (example_self\<lparr>model_obj := Some three_gene_model\<rparr>) =
     ([LogInfo ''Total Genes: 3''],
      Inr (example_self\<lparr>model_obj := Some three_gene_model,
             gene_info := [(''A'', ''alpha''), (''B'', ''beta''), (''C'', ''gamma'')]\<rparr>)) \<and>
   (\<exists>info. map_of info = map_of (rev (entries three_gene_model)) \<and>
           fst ` set info = gene_id ` set (genes three_gene_model))"
proof -
  let ?self = "example_self\<lparr>model_obj := Some three_gene_model\<rparr>"
  have h1: "model_obj ?self = Some three_gene_model"
    by simp
  have h2: "distinct (map fst (gene_info ?self))"
    by (simp add: example_self_def)
  have h3: "gene_info ?self = []"
    by (simp add: example_self_def)
  have h4: "parse_gene_info_from_model ?self =
     ([LogInfo ''Total Genes: 3''],
      Inr (example_self\<lparr>model_obj := Some three_gene_model,
             gene_info := [(''A'', ''alpha''), (''B'', ''beta''), (''C'', ''gamma'')]\<rparr>))"
    by code_simp
  from gene_info_after_parse [OF h1 h2]
  have ex: "\<exists>info. map_of info = map_of (rev (entries three_gene_model)) \<and>
           fst ` set info = gene_id ` set (genes three_gene_model)"
  proof (elim exE conjE)
    fix info
    assume "gene_info ?self = [] \<longrightarrow>
        fst ` set info = gene_id ` set (genes three_gene_model) \<and>
        map_of info = map_of (rev (entries three_gene_model))"
    with h3 have "map_of info = map_of (rev (entries three_gene_model)) \<and>
        fst ` set info = gene_id ` set (genes three_gene_model)"
      by (simp only: simp_thms)
    then show ?thesis
      by (rule exI)
  qed
  show ?thesis
    by (intro conjI) (rule h1 h2 h3 h4 ex)+
qed

theorem gene_info_after_parse_counterexample:
  "load_data example_env example_self =
     ([LogInfo ''xml'', ParserCall read_sbml_model ''/data/my.model.v2.xml'',
       LogInfo ''Total Genes: 2''], Inr after_first_load) \<and>
   parse_gene_info_from_model (after_first_load\<lparr>model_obj := Some second_model\<rparr>) =
     ([LogInfo ''Total Genes: 3''], Inr after_second_load) \<and>
   map fst (gene_info after_second_load) = [''A'', ''B'', ''C''] \<and>
   map gene_id (genes second_model) = [''B'', ''C''] \<and>
   fst ` set (gene_info after_second_load) \<noteq> gene_id ` set (genes second_model)"
proof -
  have c1: "load_data example_env example_self =
     ([LogInfo ''xml'', ParserCall read_sbml_model ''/data/my.model.v2.xml'',
       LogInfo ''Total Genes: 2''], Inr after_first_load)"
    by code_simp
  have c2: "parse_gene_info_from_model (after_first_load\<lparr>model_obj := Some second_model\<rparr>) =
     ([LogInfo ''Total Genes: 3''], Inr after_second_load)"
    by code_simp
  have c3: "map fst (gene_info after_second_load) = [''A'', ''B'', ''C'']"
    by (simp add: after_second_load_def)
  have c4: "map gene_id (genes second_model) = [''B'', ''C'']"
    by (simp add: second_model_def)
  have "''A'' \<in> fst ` set (gene_info after_second_load)"
    by (simp add: after_second_load_def)
  moreover have "''A'' \<notin> gene_id ` set (genes second_model)"
    by (simp add: second_model_def)
  ultimately have c5: "fst ` set (gene_info after_second_load) \<noteq> gene_id ` set (genes second_model)"
    by (metis)
  show ?thesis
    by (intro conjI) (rule c1 c2 c3 c4 c5)+
qed

text \<open>
  Claim C9. The dictionary is never cleared. Take the instance the constructor returns,
  let the first \<open>load_data\<close> load the model \<open>m1\<close> and a second \<open>load_data\<close> on the same
  instance load the model \<open>m2\<close> (the model file may have been replaced or the attribute
  \<open>model_file\<close> reassigned in between). Both calls return; after the second the keys of
  \<open>gene_info\<close> are the ids of both models, the entries are those of \<open>m1\<close> updated by
  those of \<open>m2\<close>, so that an id that only \<open>m1\<close> has keeps the entry it had after the
  first call, and the count logged last is the number of ids of both models together.
  In the witness the second model has two genes and the log says three.
\<close>

theorem gene_info_second_load:
  assumes "snd (Knockout env0 mf od meth) = Inr self0"
    and "load_model_from_file env1 mf [] = (tr1, Inr m1)"
    and "load_model_from_file env2 mf2 [] = (tr2, Inr m2)"
  shows "\<exists>self1 self2 count1.
           load_data env1 self0 = (tr1 @ [LogInfo count1], Inr self1) \<and>
           model_obj self1 = Some m1 \<and>
           load_data env2 (self1\<lparr>model_file := mf2\<rparr>) =
             (tr2 @ [LogInfo (''Total Genes: '' @
                 show_nat (card (gene_id ` set (genes m1) \<union> gene_id ` set (genes m2))))],
              Inr self2) \<and>
           model_obj self2 = Some m2 \<and>
           fst ` set (gene_info self1) = gene_id ` set (genes m1) \<and>
           map_of (gene_info self1) = map_of (rev (entries m1)) \<and>
           fst ` set (gene_info self2) = gene_id ` set (genes m1) \<union> gene_id ` set (genes m2) \<and>
           map_of (gene_info self2) = map_of (rev (entries m1)) ++ map_of (rev (entries m2)) \<and>
           (\<forall>g \<in> gene_id ` set (genes m1) - gene_id ` set (genes m2).
              map_of (gene_info self2) g = map_of (gene_info self1) g \<and>
              map_of (gene_info self2) g \<noteq> None)"
proof -
  let ?upd = "\<lambda>gs d. fold (\<lambda>r d. AList.update (gene_id r) (gene_name r) d) gs d"
  let ?info1 = "?upd (genes m1) []"
  let ?info2 = "?upd (genes m2) ?info1"
  let ?self1 = "self0\<lparr>model_obj := Some m1, gene_info := ?info1\<rparr>"
  let ?self2 = "?self1\<lparr>model_file := mf2, model_obj := Some m2, gene_info := ?info2\<rparr>"
  from Knockout_fields [OF assms(1)]
  have fresh: "gene_info self0 = []" and mfile: "model_file self0 = mf"
    by simp_all
  have first: "load_data env1 self0 =
      (tr1 @ [LogInfo (''Total Genes: '' @ show_nat (length ?info1))], Inr ?self1)"
    using load_data_loaded [of env1 self0 tr1 m1] assms(2) by (simp add: fresh mfile)
  have keys1: "fst ` set ?info1 = gene_id ` set (genes m1)"
    by (simp add: keys_fold_update)
  have keys2: "fst ` set ?info2 = gene_id ` set (genes m1) \<union> gene_id ` set (genes m2)"
    by (simp add: keys_fold_update)
  have "distinct (map fst ?info1)"
    by (rule distinct_fold_update) simp
  then have "distinct (map fst ?info2)"
    by (rule distinct_fold_update)
  then have len: "length ?info2 = card (gene_id ` set (genes m1) \<union> gene_id ` set (genes m2))"
    by (simp add: length_distinct_keys keys2)
  have second: "load_data env2 (?self1\<lparr>model_file := mf2\<rparr>) =
      (tr2 @ [LogInfo (''Total Genes: '' @
          show_nat (card (gene_id ` set (genes m1) \<union> gene_id ` set (genes m2))))],
       Inr ?self2)"
    using load_data_loaded [of env2 "?self1\<lparr>model_file := mf2\<rparr>" tr2 m2] assms(3)
    by (simp add: len)
  have look1: "map_of ?info1 = map_of (rev (entries m1))"
    by (simp add: map_of_fold_update entries_def)
  have look2: "map_of ?info2 = map_of ?info1 ++ map_of (rev (entries m2))"
    by (simp add: map_of_fold_update entries_def)
  have look12: "map_of ?info2 = map_of (rev (entries m1)) ++ map_of (rev (entries m2))"
    by (simp only: look2 look1)
  have keep: "map_of ?info2 g = map_of ?info1 g \<and> map_of ?info2 g \<noteq> None"
    if g: "g \<in> gene_id ` set (genes m1) - gene_id ` set (genes m2)" for g
  proof -
    from g have "g \<notin> fst ` set (rev (entries m2))"
      by (force simp: entries_def)
    then have none: "map_of (rev (entries m2)) g = None"
      by (simp add: map_of_eq_None_iff)
    from g have "g \<in> fst ` set ?info1"
      by (simp add: keys1)
    then have "map_of ?info1 g \<noteq> None"
      by (simp add: map_of_eq_None_iff)
    with none show ?thesis
      by (simp add: look2 map_add_def)
  qed
  then have keep': "\<forall>g \<in> gene_id ` set (genes m1) - gene_id ` set (genes m2).
      map_of ?info2 g = map_of ?info1 g \<and> map_of ?info2 g \<noteq> None"
    by blast
  show ?thesis
  proof (intro exI conjI)
    show "load_data env1 self0 =
        (tr1 @ [LogInfo (''Total Genes: '' @ show_nat (length ?info1))], Inr ?self1)"
      by (rule first)
    show "model_obj ?self1 = Some m1"
      by simp
    show "load_data env2 (?self1\<lparr>model_file := mf2\<rparr>) =
        (tr2 @ [LogInfo (''Total Genes: '' @
            show_nat (card (gene_id ` set (genes m1) \<union> gene_id ` set (genes m2))))],
         Inr ?self2)"
      by (rule second)
    show "model_obj ?self2 = Some m2"
      by simp
    show "fst ` set (gene_info ?self1) = gene_id ` set (genes m1)"
      using keys1 by simp
    show "map_of (gene_info ?self1) = map_of (rev (entries m1))"
      using look1 by simp
    show "fst ` set (gene_info ?self2) = gene_id ` set (genes m1) \<union> gene_id ` set (genes m2)"
      using keys2 by simp
    show "map_of (gene_info ?self2) = map_of (rev (entries m1)) ++ map_of (rev (entries m2))"
      using look12 by simp
    have g1: "gene_info ?self1 = ?info1" and g2: "gene_info ?self2 = ?info2"
      by simp_all
    show "\<forall>g \<in> gene_id ` set (genes m1) - gene_id ` set (genes m2).
        map_of (gene_info ?self2) g = map_of (gene_info ?self1) g \<and>
        map_of (gene_info ?self2) g \<noteq> None"
      unfolding g1 g2 by (rule keep')
  qed
qed

theorem gene_info_second_load_witness:
  "snd (Knockout example_env ''/data/my.model.v2.xml'' ''/out'' ''fba'') = Inr example_self \<and>
   load_model_from_file example_env ''/data/my.model.v2.xml'' [] =
     ([LogInfo ''xml'', ParserCall read_sbml_model ''/data/my.model.v2.xml''], Inr example_model) \<and>
   load_model_from_file second_env ''/data/my.model.v2.xml'' [] =
     ([LogInfo ''xml'', ParserCall read_sbml_model ''/data/my.model.v2.xml''], Inr second_model) \<and>
   load_data example_env example_self =
     ([LogInfo ''xml'', ParserCall read_sbml_model ''/data/my.model.v2.xml'',
       LogInfo ''Total Genes: 2''], Inr after_first_load) \<and>
   load_data second_env (after_first_load\<lparr>model_file := ''/data/my.model.v2.xml''\<rparr>) =
     ([LogInfo ''xml'', ParserCall read_sbml_model ''/data/my.model.v2.xml'',
       LogInfo ''Total Genes: 3''], Inr after_second_load) \<and>
   length (genes second_model) = 2 \<and>
   map_of (gene_info after_second_load) ''A'' = Some ''alpha'' \<and>
   card (gene_id ` set (genes example_model) \<union> gene_id ` set (genes second_model)) = 3 \<and>
   (\<exists>self2 :: knockout.
      model_obj self2 = Some second_model \<and>
      fst ` set (gene_info self2) =
        gene_id ` set (genes example_model) \<union> gene_id ` set (genes second_model))"
proof -
  have h1: "snd (Knockout example_env ''/data/my.model.v2.xml'' ''/out'' ''fba'') = Inr example_self"
    by code_simp
  have h2: "load_model_from_file example_env ''/data/my.model.v2.xml'' [] =
     ([LogInfo ''xml'', ParserCall read_sbml_model ''/data/my.model.v2.xml''], Inr example_model)"
    by code_simp
  have h3: "load_model_from_file second_env ''/data/my.model.v2.xml'' [] =
     ([LogInfo ''xml'', ParserCall read_sbml_model ''/data/my.model.v2.xml''], Inr second_model)"
    by code_simp
  have r1: "load_data example_env example_self =
     ([LogInfo ''xml'', ParserCall read_sbml_model ''/data/my.model.v2.xml'',
       LogInfo ''Total Genes: 2''], Inr after_first_load)"
    by code_simp
  have r2: "load_data second_env (after_first_load\<lparr>model_file := ''/data/my.model.v2.xml''\<rparr>) =
     ([LogInfo ''xml'', ParserCall read_sbml_model ''/data/my.model.v2.xml'',
       LogInfo ''Total Genes: 3''], Inr after_second_load)"
    by code_simp
  have h6: "length (genes second_model) = 2"
    by (simp add: second_model_def)
  have h7: "map_of (gene_info after_second_load) ''A'' = Some ''alpha''"
    by (simp add: after_second_load_def)
  from gene_info_second_load [OF h1 h2 h3]
  have ex: "\<exists>self2 :: knockout.
      model_obj self2 = Some second_model \<and>
      fst ` set (gene_info self2) =
        gene_id ` set (genes example_model) \<union> gene_id ` set (genes second_model)"
  proof (elim exE conjE)
    fix self2 :: knockout
    assume "model_obj self2 = Some second_model"
      and "fst ` set (gene_info self2) =
        gene_id ` set (genes example_model) \<union> gene_id ` set (genes second_model)"
    then have "model_obj self2 = Some second_model \<and>
      fst ` set (gene_info self2) =
        gene_id ` set (genes example_model) \<union> gene_id ` set (genes second_model)"
      by (rule conjI)
    then show ?thesis
      by (rule exI)
  qed
  have h8: "card (gene_id ` set (genes example_model) \<union> gene_id ` set (genes second_model)) = 3"
    by (simp add: example_model_def second_model_def card_insert_if)
  show ?thesis
    by (intro conjI) (rule h1 h2 h3 r1 r2 h6 h7 h8 ex)+
qed

subsection \<open>Running the deletion\<close>

text \<open>
  Claim C1. When the deletion routine returns a table whose id sets are all non-empty
  and some normalized id is not a key of \<open>gene_info\<close>, \<open>run_knockout\<close> raises
  \<^verbatim>\<open>KeyError\<close> for the first such id, before anything is logged or written: the
  trace is empty, so no file is written and the file store is unchanged. In the
  witness the gene list holds the id \<^verbatim>\<open>Z\<close>, which the model does not have.
\<close>

theorem missing_gene_aborts:
  assumes "single_gene_deletion env (model_obj self) (gene_list self) (method' self) =
             Inr gene_status"
    and "\<forall>r \<in> set gene_status. ids r \<noteq> []"
    and "\<exists>r \<in> set gene_status. map_of (gene_info self) (hd (ids r)) = None"
  shows "(\<exists>g. find (\<lambda>g. map_of (gene_info self) g = None) (map (\<lambda>r. hd (ids r)) gene_status)
                = Some g \<and>
              run_knockout env self = ([], Inl (KeyError g))) \<and>
         file_writes (fst (run_knockout env self)) = [] \<and>
         files_after (fst (run_knockout env self)) fs = fs"
proof -
  let ?keys = "map (\<lambda>r. hd (ids r)) gene_status"
  from assms(3) have "\<exists>k \<in> set ?keys. map_of (gene_info self) k = None"
    by auto
  then obtain g where g: "find (\<lambda>g. map_of (gene_info self) g = None) ?keys = Some g"
    by (cases "find (\<lambda>g. map_of (gene_info self) g = None) ?keys")
       (auto simp: find_None_iff)
  from assms(2) have norm: "apply_series first_of (map ids gene_status) = Inr ?keys"
    using apply_series_first_of [of "map ids gene_status"] by (simp add: comp_def)
  have run: "run_knockout env self = ([], Inl (KeyError g))"
    by (simp add: run_knockout_def assms(1) norm apply_series_getitem_missing [OF g] io_defs)
  with g show ?thesis
    by simp
qed

theorem missing_gene_aborts_witness:
  "single_gene_deletion missing_env (model_obj (set_gene_list after_first_load [''A'', ''Z'']))
      (gene_list (set_gene_list after_first_load [''A'', ''Z'']))
      (method' (set_gene_list after_first_load [''A'', ''Z''])) =
     Inr [\<lparr>ids = [''A''], growth = ''0.5'', status = ''optimal''\<rparr>,
          \<lparr>ids = [''Z''], growth = ''0.0'', status = ''optimal''\<rparr>] \<and>
   run_knockout missing_env (set_gene_list after_first_load [''A'', ''Z'']) =
     ([], Inl (KeyError ''Z'')) \<and>
   file_writes (fst (run_knockout missing_env (set_gene_list after_first_load [''A'', ''Z'']))) = []"
proof -
  let ?self = "set_gene_list after_first_load [''A'', ''Z'']"
  let ?rows = "[\<lparr>ids = [''A''], growth = ''0.5'', status = ''optimal''\<rparr>,
                \<lparr>ids = [''Z''], growth = ''0.0'', status = ''optimal''\<rparr>]"
  have h1: "single_gene_deletion missing_env (model_obj ?self) (gene_list ?self) (method' ?self)
              = Inr ?rows"
    by (simp add: missing_env_def example_env_def)
  have h2: "\<forall>r \<in> set ?rows. ids r \<noteq> []"
    by simp
  have h3: "\<exists>r \<in> set ?rows. map_of (gene_info ?self) (hd (ids r)) = None"
    by (simp add: set_gene_list_def after_first_load_def example_self_def)
  have h4: "find (\<lambda>g. map_of (gene_info ?self) g = None) (map (\<lambda>r. hd (ids r)) ?rows) = Some ''Z''"
    by (simp add: set_gene_list_def after_first_load_def example_self_def)
  from missing_gene_aborts [OF h1 h2 h3] h1 h4 show ?thesis
    by auto
qed

text \<open>
  Claim C6. When the deletion routine returns a table in which every id set has exactly
  one element that is a key of \<open>gene_info\<close>, and the output path can be opened for
  writing, \<open>run_knockout\<close> logs the status count and then writes once, to \<open>out_res\<close>,
  the table of the specification as the writer prints it: whatever the path held
  before, it holds this text afterwards. Where the writer's quoting leaves the cells as
  they are, the text is the header \<^verbatim>\<open>ids growth status name\<close> followed by one line per
  row in the order of the result, holding the element of the id set, the growth, the
  status and the name from \<open>gene_info\<close>, separated by tabs, without an index column.
  The witness is the example of the specification.
\<close>

theorem knockout_table_written:
  assumes "single_gene_deletion env (model_obj self) (gene_list self) (method' self) =
             Inr gene_status"
    and "\<forall>r \<in> set gene_status. \<exists>g. ids r = [g] \<and> map_of (gene_info self) g \<noteq> None"
    and "file_writable env (out_res self)"
  shows "run_knockout env self =
           ([LogInfo (counter_repr env (map status gene_status)),
             FileWrite (out_res self) (csv_text env (spec_table (gene_info self) gene_status))],
            Inr ()) \<and>
         files_after (fst (run_knockout env self)) fs (out_res self) =
           Some (csv_text env (spec_table (gene_info self) gene_status)) \<and>
         ((\<forall>cell \<in> set (spec_cells env (spec_table (gene_info self) gene_status)).
              csv_quote env cell = cell) \<longrightarrow>
            csv_text env (spec_table (gene_info self) gene_status) =
              spec_table_text env (spec_table (gene_info self) gene_status))"
proof -
  let ?keys = "map (\<lambda>r. hd (ids r)) gene_status"
  let ?names = "map (\<lambda>r. the (map_of (gene_info self) (hd (ids r)))) gene_status"
  from assms(2) have "\<forall>x \<in> set (map ids gene_status). x \<noteq> []"
    by auto
  then have norm: "apply_series first_of (map ids gene_status) = Inr ?keys"
    using apply_series_first_of [of "map ids gene_status"] by (simp add: comp_def)
  from assms(2) have "\<forall>k \<in> set ?keys. map_of (gene_info self) k \<noteq> None"
    by auto
  then have names: "apply_series (getitem (gene_info self)) ?keys = Inr ?names"
    using apply_series_getitem_present [of ?keys "gene_info self"] by (simp add: comp_def)
  have table: "zip ?keys (zip (map growth gene_status) (zip (map status gene_status) ?names)) =
               spec_table (gene_info self) gene_status"
    unfolding spec_table_def by (rule zip_columns)
  have run: "run_knockout env self =
           ([LogInfo (counter_repr env (map status gene_status)),
             FileWrite (out_res self) (csv_text env (spec_table (gene_info self) gene_status))],
            Inr ())"
    by (simp add: run_knockout_def assms(1) assms(3) norm names table to_csv_def io_defs)
  then have store: "files_after (fst (run_knockout env self)) fs (out_res self) =
           Some (csv_text env (spec_table (gene_info self) gene_status))"
    by simp
  from run store csv_text_plain [of env "spec_table (gene_info self) gene_status"]
  show ?thesis
    by blast
qed

theorem knockout_table_written_witness:
  "single_gene_deletion example_env (model_obj after_first_load) (gene_list after_first_load)
     (method' after_first_load) = Inr example_rows \<and>
   map ids example_rows = [[''A''], [''B'']] \<and>
   map (map_of (gene_info after_first_load)) [''A'', ''B''] = [Some ''alpha'', Some ''beta''] \<and>
   file_writable example_env (out_res after_first_load) \<and>
   spec_table_text example_env (spec_table (gene_info after_first_load) example_rows) =
     example_text \<and>
   run_knockout example_env after_first_load =
     ([LogInfo ''Counter'', FileWrite ''/out/my_knock_res.txt'' example_text], Inr ()) \<and>
   files_after (fst (run_knockout example_env after_first_load))
     [''/out/my_knock_res.txt'' \<mapsto> ''old text''] ''/out/my_knock_res.txt'' = Some example_text"
proof -
  let ?table = "spec_table (gene_info after_first_load) example_rows"
  have h1: "single_gene_deletion example_env (model_obj after_first_load)
     (gene_list after_first_load) (method' after_first_load) = Inr example_rows"
    by (simp add: example_env_def example_rows_def)
  have h2: "\<forall>r \<in> set example_rows. \<exists>g. ids r = [g] \<and> map_of (gene_info after_first_load) g \<noteq> None"
    by (simp add: example_rows_def after_first_load_def)
  have h3: "file_writable example_env (out_res after_first_load)"
    by (simp add: example_env_def)
  have h4: "\<forall>cell \<in> set (spec_cells example_env ?table). csv_quote example_env cell = cell"
    by (simp add: example_env_def)
  have t: "spec_table_text example_env ?table = example_text"
    by (simp add: spec_table_text_def spec_table_def example_env_def example_rows_def
          after_first_load_def example_text_def)
  have c: "counter_repr example_env (map status example_rows) = ''Counter''"
    by (simp add: example_env_def)
  have p: "out_res after_first_load = ''/out/my_knock_res.txt''"
    by (simp add: after_first_load_def example_self_def)
  note th = knockout_table_written [OF h1 h2 h3, of "[''/out/my_knock_res.txt'' \<mapsto> ''old text'']"]
  from th h4 have "csv_text example_env ?table = spec_table_text example_env ?table"
    by blast
  then have e: "csv_text example_env ?table = example_text"
    by (simp only: t)
  from th have "run_knockout example_env after_first_load =
      ([LogInfo (counter_repr example_env (map status example_rows)),
        FileWrite (out_res after_first_load) (csv_text example_env ?table)], Inr ())"
    by blast
  then have r: "run_knockout example_env after_first_load =
      ([LogInfo ''Counter'', FileWrite ''/out/my_knock_res.txt'' example_text], Inr ())"
    by (simp only: c p e)
  have f: "files_after (fst (run_knockout example_env after_first_load))
     [''/out/my_knock_res.txt'' \<mapsto> ''old text''] ''/out/my_knock_res.txt'' = Some example_text"
    by (simp add: r)
  from h1 h3 t r f show ?thesis
    by (simp add: example_rows_def after_first_load_def)
qed

subsection \<open>The gene list of the command line\<close>

text \<open>
  Claim C7, as amended. When the constructor has returned and the gene list file can be
  read, \<open>main\<close> passes to \<open>set_gene_list\<close> the lines of the file as the text-mode
  reader delivers them: \<^verbatim>\<open>\n\<close>, \<^verbatim>\<open>\r\<close> and \<^verbatim>\<open>\r\n\<close> each end a line and arrive as
  \<^verbatim>\<open>\n\<close>, and the list is the specification's list of that translated text. No
  identifier holds a carriage return or a line feed; joined again with a line feed
  after each, the identifiers give back the translated text (with a final line feed
  added if it lacked one), so every other character, blanks included, survives in
  place and no line is dropped.

  The claim as stated fails: for a file with the bytes \<^verbatim>\<open>A\r\n B \n\<close> it promises
  the identifiers \<^verbatim>\<open>A\r\<close> and \<^verbatim>\<open> B \<close>, while the program passes \<^verbatim>\<open>A\<close> and
  \<^verbatim>\<open> B \<close>: the carriage return does not survive.
\<close>

theorem cli_gene_list:
  assumes "snd (Knockout env (arg_model_file a) (arg_outdir a) (arg_method a)) = Inr runner"
    and "arg_gene_list a = Some path"
    and "read_text env path = Inr raw"
  shows "snd (main_setup env a) =
           Inr (set_gene_list runner (spec_gene_list (universal_newlines raw))) \<and>
         (\<forall>g \<in> set (spec_gene_list (universal_newlines raw)). CR \<notin> set g \<and> LF \<notin> set g) \<and>
         concat (map (\<lambda>g. g @ [LF]) (spec_gene_list (universal_newlines raw))) =
           (if universal_newlines raw = [] \<or> last (universal_newlines raw) = LF
            then universal_newlines raw else universal_newlines raw @ [LF])"
proof -
  have eq: "gene_list_of_text raw = spec_gene_list (universal_newlines raw)"
    by (simp add: gene_list_filter filter_lines_spec)
  obtain tr where k: "Knockout env (arg_model_file a) (arg_outdir a) (arg_method a) = (tr, Inr runner)"
    using assms(1) by (cases "Knockout env (arg_model_file a) (arg_outdir a) (arg_method a)") simp
  have ms: "snd (main_setup env a) = Inr (set_gene_list runner (gene_list_of_text raw))"
    by (simp add: main_setup_def k assms(2) assms(3) io_defs)
  have chars: "\<forall>g \<in> set (gene_list_of_text raw). CR \<notin> set g \<and> LF \<notin> set g"
    using gene_list_chars by blast
  have "concat (map (\<lambda>g. g @ [LF]) (gene_list_of_text raw)) =
           (if universal_newlines raw = [] \<or> last (universal_newlines raw) = LF
            then universal_newlines raw else universal_newlines raw @ [LF])"
    using terminated_lines [of "universal_newlines raw"]
    by (simp add: gene_list_filter comp_def)
  with ms chars show ?thesis
    unfolding eq by blast
qed

theorem cli_gene_list_witness:
  "snd (Knockout gene_list_env (arg_model_file gene_list_args) (arg_outdir gene_list_args)
          (arg_method gene_list_args)) = Inr example_self \<and>
   arg_gene_list gene_list_args = Some ''genes.txt'' \<and>
   read_text gene_list_env ''genes.txt'' = Inr crlf_text \<and>
   spec_gene_list (universal_newlines crlf_text) = [''A'', '' B ''] \<and>
   snd (main_setup gene_list_env gene_list_args) = Inr (set_gene_list example_self [''A'', '' B ''])"
proof -
  have h1: "snd (Knockout gene_list_env (arg_model_file gene_list_args)
      (arg_outdir gene_list_args) (arg_method gene_list_args)) = Inr example_self"
    by code_simp
  have h2: "arg_gene_list gene_list_args = Some ''genes.txt''"
    by (simp add: gene_list_args_def)
  have h3: "read_text gene_list_env ''genes.txt'' = Inr crlf_text"
    by (simp add: gene_list_env_def)
  have h4: "spec_gene_list (universal_newlines crlf_text) = [''A'', '' B '']"
    by (simp add: spec_gene_list_def crlf_text_def)
  from cli_gene_list [OF h1 h2 h3] h1 h2 h3 h4 show ?thesis
    by simp
qed

theorem cli_gene_list_counterexample:
  "read_text gene_list_env ''genes.txt'' = Inr crlf_text \<and>
   spec_gene_list crlf_text = [[CHR ''A'', CR], '' B ''] \<and>
   snd (main_setup gene_list_env gene_list_args) =
     Inr (set_gene_list example_self [''A'', '' B '']) \<and>
   snd (main_setup gene_list_env gene_list_args) \<noteq>
     Inr (set_gene_list example_self (spec_gene_list crlf_text))"
proof -
  have r: "read_text gene_list_env ''genes.txt'' = Inr crlf_text"
    by (simp add: gene_list_env_def)
  have s: "spec_gene_list crlf_text = [[CHR ''A'', CR], '' B '']"
    by (simp add: spec_gene_list_def crlf_text_def)
  have m: "snd (main_setup gene_list_env gene_list_args) =
     Inr (set_gene_list example_self [''A'', '' B ''])"
    by code_simp
  show ?thesis
    unfolding m s using r by (simp add: set_gene_list_def example_self_def)
qed


subsection \<open>Creating the output directory\<close>




end
